theory Spec2Isabelle
  imports Main "HOL-Library.AList" "HOL-Library.Monad_Syntax"
begin

section \<open>Data model\<close>

text \<open>
  The package under study is a hierarchical logging facility. The file \<^verbatim>\<open>logger.go\<close>
  defines the handle type \<^verbatim>\<open>Logger\<close> and its methods. The types \<^verbatim>\<open>module\<close>,
  \<^verbatim>\<open>Context\<close>, \<^verbatim>\<open>Level\<close>, \<^verbatim>\<open>Entry\<close> and \<^verbatim>\<open>Labels\<close> are declared in other
  files of the package; their fields are taken from the way \<^verbatim>\<open>logger.go\<close> uses them.

  Pointers are addresses into explicit heaps held in the \<open>world\<close>: a heap is a list of
  objects, an address is an index, allocation appends. A nil pointer is \<open>None\<close>.
\<close>

type_synonym ref = nat

text \<open>Modelled from the spec: the declaration of \<^verbatim>\<open>Level\<close> is missing; the severity
  scale is the ordered enumeration of seven values, UNSPECIFIED lowest.\<close>

datatype Level = UNSPECIFIED | TRACE | DEBUG | INFO | WARNING | ERROR | CRITICAL

fun severity :: "Level \<Rightarrow> nat" where
  "severity UNSPECIFIED = 0"
| "severity TRACE = 1"
| "severity DEBUG = 2"
| "severity INFO = 3"
| "severity WARNING = 4"
| "severity ERROR = 5"
| "severity CRITICAL = 6"

text \<open>\<^verbatim>\<open>type Labels map[string]string\<close>: a Go map value is nil or a reference to a map
  object. The contents of a map object are an association list with distinct keys.\<close>

type_synonym Labels = "ref option"

type_synonym label_map = "(string \<times> string) list"

text \<open>\<^verbatim>\<open>type Logger struct { impl *module; labels Labels }\<close>\<close>

record Logger =
  impl :: "ref option"
  labels :: Labels

text \<open>Modelled from the spec: the declaration of \<^verbatim>\<open>module\<close> is missing. The fields are
  those \<^verbatim>\<open>logger.go\<close> reads: name, level, parent, context, tags.\<close>

record module =
  name :: string
  level :: Level
  parent :: ref
  "context" :: ref
  tags :: "string list"

text \<open>Modelled from the spec: the declaration of \<^verbatim>\<open>Context\<close> is missing. A context owns
  its root module and the map from canonical names to modules.\<close>

record Context =
  root :: ref
  modules :: "(string \<times> ref) list"

text \<open>The fields of \<^verbatim>\<open>Entry\<close> that \<^verbatim>\<open>LogCallf\<close> fills in.\<close>

record Entry =
  Level :: Level
  Filename :: string
  Line :: int
  Timestamp :: nat
  Message :: string
  Labels :: Labels

text \<open>The world: the three heaps, the package variable \<^verbatim>\<open>defaultContext\<close>, the entries
  handed to \<^verbatim>\<open>module.write\<close> so far (each with the context that received it), and the
  number of calls made to \<^verbatim>\<open>fmt.Sprintf\<close>.\<close>

record world =
  module_heap :: "module list"
  context_heap :: "Context list"
  labels_heap :: "label_map list"
  defaultContext :: ref
  dispatched :: "(ref \<times> Entry) list"
  sprintf_calls :: nat

text \<open>A call site is a file and a line. The call stack of a running function is the
  list of call sites that lead to it, innermost first.\<close>

type_synonym frame = "string \<times> int"

text \<open>The environment of a call: the clock (\<^verbatim>\<open>time.Now\<close>), the runtime's stack inspection
  (\<^verbatim>\<open>runtime.Caller\<close>, given the stack whose head is the position of the call to it, and
  the number of frames to skip) and the formatter (\<^verbatim>\<open>fmt.Sprintf\<close>). They belong to
  the Go runtime and library and are left uninterpreted.\<close>

record 'a environment =
  Now :: nat
  Caller :: "frame list \<Rightarrow> int \<Rightarrow> string \<times> int \<times> bool"
  Sprintf :: "string \<Rightarrow> 'a list \<Rightarrow> string"

section \<open>Heap access\<close>

definition deref_module :: "world \<Rightarrow> ref \<Rightarrow> module option" where
  "deref_module w m = (if m < length (module_heap w) then Some (module_heap w ! m) else None)"

definition deref_context :: "world \<Rightarrow> ref \<Rightarrow> Context option" where
  "deref_context w c = (if c < length (context_heap w) then Some (context_heap w ! c) else None)"

text \<open>Reading a Go map: a nil map reads as the empty map.\<close>

definition deref_labels :: "world \<Rightarrow> Labels \<Rightarrow> label_map option" where
  "deref_labels w l =
     (case l of
        None \<Rightarrow> Some []
      | Some a \<Rightarrow> if a < length (labels_heap w) then Some (labels_heap w ! a) else None)"

text \<open>\<^verbatim>\<open>make(Labels)\<close>: a fresh empty map object.\<close>

definition make_Labels :: "world \<Rightarrow> world \<times> ref" where
  "make_Labels w = (w\<lparr>labels_heap := labels_heap w @ [[]]\<rparr>, length (labels_heap w))"

text \<open>\<^verbatim>\<open>m[k] = v\<close> on the map object at address \<open>a\<close>.\<close>

definition map_assign :: "world \<Rightarrow> ref \<Rightarrow> string \<Rightarrow> string \<Rightarrow> world" where
  "map_assign w a k v =
     w\<lparr>labels_heap := (labels_heap w)[a := AList.update k v (labels_heap w ! a)]\<rparr>"

text \<open>\<^verbatim>\<open>for k, v := range src { dst[k] = v }\<close>, with \<open>kvs\<close> the contents of \<open>src\<close>
  and \<open>a\<close> the address of \<open>dst\<close>.\<close>

fun copy_entries :: "world \<Rightarrow> ref \<Rightarrow> label_map \<Rightarrow> world" where
  "copy_entries w a [] = w"
| "copy_entries w a ((k, v) # kvs) = copy_entries (map_assign w a k v) a kvs"

section \<open>The handle: \<^verbatim>\<open>logger.go\<close>\<close>

definition WithLabels :: "world \<Rightarrow> Logger \<Rightarrow> Labels \<Rightarrow> (world \<times> Logger) option" where
  "WithLabels w logger lbls =
     (case deref_labels w lbls of
        None \<Rightarrow> None
      | Some kvs \<Rightarrow>
          if length kvs = 0 then Some (w, logger)
          else
            let result = logger;
                (w1, a) = make_Labels w;
                result = result\<lparr>labels := Some a\<rparr>;
                w2 = copy_entries w1 a kvs
            in Some (w2, result))"

definition getModule :: "world \<Rightarrow> Logger \<Rightarrow> ref option" where
  "getModule w logger =
     (case impl logger of
        None \<Rightarrow> map_option root (deref_context w (defaultContext w))
      | Some m \<Rightarrow> Some m)"

section \<open>Modules and contexts\<close>

text \<open>Modelled from the spec: \<^verbatim>\<open>module.Name\<close> is missing. The name of a module is its
  canonical dotted name; the tests of \<^verbatim>\<open>logger_test.go\<close> show the root, whose name field
  is empty, presenting itself as \<^verbatim>\<open><root>\<close>.\<close>

definition module_Name :: "world \<Rightarrow> ref \<Rightarrow> string option" where
  "module_Name w m =
     map_option (\<lambda>md. if name md = [] then ''<root>'' else name md) (deref_module w m)"

text \<open>Modelled from the spec: \<^verbatim>\<open>module.getEffectiveLogLevel\<close> is missing. If the own level
  is not UNSPECIFIED it is returned, otherwise the parent is asked. The walk need not end
  (a root left UNSPECIFIED is its own parent), so not returning is the value \<open>None\<close>.\<close>

partial_function (option) getEffectiveLogLevel :: "world \<Rightarrow> ref \<Rightarrow> Level option" where
  "getEffectiveLogLevel w m =
     (case deref_module w m of
        None \<Rightarrow> None
      | Some md \<Rightarrow>
          if level md \<noteq> UNSPECIFIED then Some (level md)
          else getEffectiveLogLevel w (parent md))"

text \<open>Modelled from the spec: \<^verbatim>\<open>module.willWrite\<close> is missing. It is
  \<^verbatim>\<open>level >= EffectiveLevel()\<close>.\<close>

definition willWrite :: "world \<Rightarrow> ref \<Rightarrow> Level \<Rightarrow> bool option" where
  "willWrite w m lvl =
     map_option (\<lambda>eff. severity lvl \<ge> severity eff) (getEffectiveLogLevel w m)"

text \<open>Modelled from the spec: \<^verbatim>\<open>module.setLevel\<close> is missing. On the root UNSPECIFIED is
  replaced by WARNING; otherwise the own level is set to the given value.\<close>

definition setLevel :: "world \<Rightarrow> ref \<Rightarrow> Level \<Rightarrow> world option" where
  "setLevel w m lvl =
     do {
       md \<leftarrow> deref_module w m;
       let lvl' = (if name md = [] \<and> lvl = UNSPECIFIED then WARNING else lvl);
       Some (w\<lparr>module_heap := (module_heap w)[m := md\<lparr>level := lvl'\<rparr>]\<rparr>)
     }"

text \<open>Modelled from the spec: \<^verbatim>\<open>module.write\<close> is missing. It hands the entry to the
  dispatch of the module's context. The writers and their thresholds are outside the
  model: the world records each entry handed over, with the receiving context, in order.\<close>

definition module_write :: "world \<Rightarrow> ref \<Rightarrow> Entry \<Rightarrow> world option" where
  "module_write w m entry =
     do {
       md \<leftarrow> deref_module w m;
       Some (w\<lparr>dispatched := dispatched w @ [(context md, entry)]\<rparr>)
     }"

text \<open>Lower-casing of names, on the ASCII letters.\<close>

definition ToLower_char :: "char \<Rightarrow> char" where
  "ToLower_char c =
     (let n = (of_char c :: nat) in if 65 \<le> n \<and> n \<le> 90 then char_of (n + 32) else c)"

definition ToLower :: "string \<Rightarrow> string" where
  "ToLower s = map ToLower_char s"

text \<open>The proper ancestors of a dotted name, outermost first: the prefix before each
  dot. \<open>prefixes_at_dots acc s\<close> walks \<open>s\<close> with \<open>acc\<close> the part already passed.\<close>

fun prefixes_at_dots :: "string \<Rightarrow> string \<Rightarrow> string list" where
  "prefixes_at_dots acc [] = []"
| "prefixes_at_dots acc (c # cs) =
     (if c = CHR ''.'' then [acc] else []) @ prefixes_at_dots (acc @ [c]) cs"

definition ancestor_names :: "string \<Rightarrow> string list" where
  "ancestor_names nm = prefixes_at_dots [] nm"

text \<open>Union of tag lists without duplicates, keeping the order of first appearance.\<close>

definition merge_tags :: "string list \<Rightarrow> string list \<Rightarrow> string list" where
  "merge_tags old new = old @ filter (\<lambda>t. t \<notin> set old) (remdups new)"

text \<open>Modelled from the spec: \<^verbatim>\<open>Context.GetLogger\<close> is missing. One step of the
  resolution: the module registered under \<open>nm\<close> in context \<open>c\<close>, with the supplied tags
  merged into its own; if there is none, a new module with level UNSPECIFIED, the given
  parent and the supplied tags is allocated and registered.\<close>

definition ensure_module :: "ref \<Rightarrow> string list \<Rightarrow> world \<times> ref \<Rightarrow> string \<Rightarrow> world \<times> ref" where
  "ensure_module c tgs wp nm =
     (let w = fst wp; par = snd wp; ctx = context_heap w ! c in
      case map_of (modules ctx) nm of
        Some r \<Rightarrow>
          (w\<lparr>module_heap :=
               (module_heap w)[r := (module_heap w ! r)\<lparr>tags := merge_tags (tags (module_heap w ! r)) tgs\<rparr>]\<rparr>, r)
      | None \<Rightarrow>
          (let r = length (module_heap w);
               md = \<lparr>name = nm, level = UNSPECIFIED, parent = par, context = c,
                     tags = merge_tags [] tgs\<rparr>
           in (w\<lparr>module_heap := module_heap w @ [md],
                  context_heap := (context_heap w)[c := ctx\<lparr>modules := modules ctx @ [(nm, r)]\<rparr>]\<rparr>, r)))"

text \<open>Modelled from the spec: \<^verbatim>\<open>Context.GetLogger(name, tags...)\<close>. The name is
  lower-cased and split at the dots; every missing ancestor is created without tags,
  from the root down, each with the previous one as parent; the module of the full name
  receives the tags. The handle returned carries no labels.\<close>

definition GetLogger :: "world \<Rightarrow> ref \<Rightarrow> string \<Rightarrow> string list \<Rightarrow> (world \<times> Logger) option" where
  "GetLogger w c nm tgs =
     do {
       ctx \<leftarrow> deref_context w c;
       let nm' = ToLower nm;
       let wp = foldl (ensure_module c []) (w, root ctx) (ancestor_names nm');
       let wr = ensure_module c tgs wp nm';
       Some (fst wr, \<lparr>impl = Some (snd wr), labels = None\<rparr>)
     }"

section \<open>Navigation and queries\<close>

definition Root :: "world \<Rightarrow> Logger \<Rightarrow> (world \<times> Logger) option" where
  "Root w logger =
     do {
       module \<leftarrow> getModule w logger;
       md \<leftarrow> deref_module w module;
       GetLogger w (context md) [] []
     }"

definition Parent :: "world \<Rightarrow> Logger \<Rightarrow> Logger option" where
  "Parent w logger =
     do {
       module \<leftarrow> getModule w logger;
       md \<leftarrow> deref_module w module;
       Some \<lparr>impl = Some (parent md), labels = None\<rparr>
     }"

definition Child :: "world \<Rightarrow> Logger \<Rightarrow> string \<Rightarrow> (world \<times> Logger) option" where
  "Child w logger nm =
     do {
       module \<leftarrow> getModule w logger;
       md \<leftarrow> deref_module w module;
       let path = name md;
       let path = (if path = [] then nm else path @ ''.'' @ nm);
       GetLogger w (context md) path []
     }"

definition ChildWithTags :: "world \<Rightarrow> Logger \<Rightarrow> string \<Rightarrow> string list \<Rightarrow> (world \<times> Logger) option" where
  "ChildWithTags w logger nm tgs =
     do {
       module \<leftarrow> getModule w logger;
       md \<leftarrow> deref_module w module;
       let path = name md;
       let path = (if path = [] then nm else path @ ''.'' @ nm);
       GetLogger w (context md) path tgs
     }"

definition Name :: "world \<Rightarrow> Logger \<Rightarrow> string option" where
  "Name w logger = do { module \<leftarrow> getModule w logger; module_Name w module }"

definition LogLevel :: "world \<Rightarrow> Logger \<Rightarrow> Level option" where
  "LogLevel w logger =
     do { module \<leftarrow> getModule w logger; md \<leftarrow> deref_module w module; Some (level md) }"

definition Tags :: "world \<Rightarrow> Logger \<Rightarrow> string list option" where
  "Tags w logger =
     do { module \<leftarrow> getModule w logger; md \<leftarrow> deref_module w module; Some (tags md) }"

definition EffectiveLogLevel :: "world \<Rightarrow> Logger \<Rightarrow> Level option" where
  "EffectiveLogLevel w logger =
     do { module \<leftarrow> getModule w logger; getEffectiveLogLevel w module }"

definition SetLogLevel :: "world \<Rightarrow> Logger \<Rightarrow> Level \<Rightarrow> world option" where
  "SetLogLevel w logger lvl = do { module \<leftarrow> getModule w logger; setLevel w module lvl }"

definition IsLevelEnabled :: "world \<Rightarrow> Logger \<Rightarrow> Level \<Rightarrow> bool option" where
  "IsLevelEnabled w logger lvl = do { module \<leftarrow> getModule w logger; willWrite w module lvl }"

definition IsErrorEnabled :: "world \<Rightarrow> Logger \<Rightarrow> bool option" where
  "IsErrorEnabled w logger = IsLevelEnabled w logger ERROR"

definition IsWarningEnabled :: "world \<Rightarrow> Logger \<Rightarrow> bool option" where
  "IsWarningEnabled w logger = IsLevelEnabled w logger WARNING"

definition IsInfoEnabled :: "world \<Rightarrow> Logger \<Rightarrow> bool option" where
  "IsInfoEnabled w logger = IsLevelEnabled w logger INFO"

definition IsDebugEnabled :: "world \<Rightarrow> Logger \<Rightarrow> bool option" where
  "IsDebugEnabled w logger = IsLevelEnabled w logger DEBUG"

definition IsTraceEnabled :: "world \<Rightarrow> Logger \<Rightarrow> bool option" where
  "IsTraceEnabled w logger = IsLevelEnabled w logger TRACE"

section \<open>Logging\<close>

text \<open>The reserved label key (the tests show its value) and the source file of the
  handle's methods, for the call sites inside it.\<close>

definition LoggerTags :: string where
  "LoggerTags = ''logger-tags''"

definition logger_go :: string where
  "logger_go = ''logger.go''"

text \<open>\<^verbatim>\<open>strings.Join\<close>.\<close>

fun Join :: "string list \<Rightarrow> string \<Rightarrow> string" where
  "Join [] sep = []"
| "Join [x] sep = x"
| "Join (x # y # ys) sep = x @ sep @ Join (y # ys) sep"

text \<open>\<^verbatim>\<open>LogCallf\<close>. \<open>stk\<close> is the call stack at entry, its head the site of the call to
  \<^verbatim>\<open>LogCallf\<close>; \<^verbatim>\<open>runtime.Caller\<close> is called at line 147. The result is the world after the
  call; \<open>None\<close> stands for a failed dereference or a level walk that does not return.\<close>

definition LogCallf ::
  "'a environment \<Rightarrow> frame list \<Rightarrow> world \<Rightarrow> Logger \<Rightarrow> int \<Rightarrow> Level \<Rightarrow> string \<Rightarrow> 'a list \<Rightarrow> world option" where
  "LogCallf env stk w logger calldepth lvl message args =
     do {
       module \<leftarrow> getModule w logger;
       will \<leftarrow> willWrite w module lvl;
       if \<not> will then Some w
       else do {
         md \<leftarrow> deref_module w module;
         lbls \<leftarrow> deref_labels w (labels logger);
         (let now = Now env;
             (file, line, ok) = Caller env ((logger_go, 147) # stk) (calldepth + 1);
             (file, line) = (if \<not> ok then (''???'', 0) else (file, line));
             message = (if length message > 0 \<and> message ! (length message - 1) = CHR 0x0A
                        then take (length message - 1) message else message);
             (w, formattedMessage) =
               (if length args > 0
                then (w\<lparr>sprintf_calls := sprintf_calls w + 1\<rparr>, Sprintf env message args)
                else (w, message));
             entry = \<lparr>Level = lvl, Filename = file, Line = line, Timestamp = now,
                      Message = formattedMessage, Labels = None\<rparr>;
             (w, entry) =
               (if length (tags md) > 0 \<or> length lbls > 0
                then
                  let (w, a) = make_Labels w;
                      (w, a) = (if length (tags md) > 0
                                then let (w, a) = make_Labels w
                                     in (map_assign w a LoggerTags (Join (tags md) '',''), a)
                                else (w, a));
                      w = copy_entries w a lbls
                  in (w, entry\<lparr>Labels := Some a\<rparr>)
                else (w, entry))
          in module_write w module entry)
       }
     }"

definition Logf ::
  "'a environment \<Rightarrow> frame list \<Rightarrow> world \<Rightarrow> Logger \<Rightarrow> Level \<Rightarrow> string \<Rightarrow> 'a list \<Rightarrow> world option" where
  "Logf env stk w logger lvl message args =
     LogCallf env ((logger_go, 128) # stk) w logger 2 lvl message args"

definition Criticalf ::
  "'a environment \<Rightarrow> frame list \<Rightarrow> world \<Rightarrow> Logger \<Rightarrow> string \<Rightarrow> 'a list \<Rightarrow> world option" where
  "Criticalf env stk w logger message args =
     Logf env ((logger_go, 189) # stk) w logger CRITICAL message args"

definition Errorf ::
  "'a environment \<Rightarrow> frame list \<Rightarrow> world \<Rightarrow> Logger \<Rightarrow> string \<Rightarrow> 'a list \<Rightarrow> world option" where
  "Errorf env stk w logger message args =
     Logf env ((logger_go, 194) # stk) w logger ERROR message args"

definition Warningf ::
  "'a environment \<Rightarrow> frame list \<Rightarrow> world \<Rightarrow> Logger \<Rightarrow> string \<Rightarrow> 'a list \<Rightarrow> world option" where
  "Warningf env stk w logger message args =
     Logf env ((logger_go, 199) # stk) w logger WARNING message args"

definition Infof ::
  "'a environment \<Rightarrow> frame list \<Rightarrow> world \<Rightarrow> Logger \<Rightarrow> string \<Rightarrow> 'a list \<Rightarrow> world option" where
  "Infof env stk w logger message args =
     Logf env ((logger_go, 204) # stk) w logger INFO message args"

definition Debugf ::
  "'a environment \<Rightarrow> frame list \<Rightarrow> world \<Rightarrow> Logger \<Rightarrow> string \<Rightarrow> 'a list \<Rightarrow> world option" where
  "Debugf env stk w logger message args =
     Logf env ((logger_go, 209) # stk) w logger DEBUG message args"

definition Tracef ::
  "'a environment \<Rightarrow> frame list \<Rightarrow> world \<Rightarrow> Logger \<Rightarrow> string \<Rightarrow> 'a list \<Rightarrow> world option" where
  "Tracef env stk w logger message args =
     Logf env ((logger_go, 214) # stk) w logger TRACE message args"

section \<open>Example worlds\<close>

text \<open>Modelled from the spec: a fresh default context holds the root module at WARNING,
  registered under the empty name, and nothing else.\<close>

definition root_module :: module where
  "root_module = \<lparr>name = [], level = WARNING, parent = 0, context = 0, tags = []\<rparr>"

definition world0 :: world where
  "world0 =
     \<lparr>module_heap = [root_module],
      context_heap = [\<lparr>root = 0, modules = [([], 0)]\<rparr>],
      labels_heap = [],
      defaultContext = 0, dispatched = [], sprintf_calls = 0\<rparr>"

text \<open>A world after some use: the modules \<^verbatim>\<open>testing\<close> (at INFO) and
  \<^verbatim>\<open>testing.withtags\<close> (tagged, level inherited), and two label maps.\<close>

definition world1 :: world where
  "world1 =
     \<lparr>module_heap =
        [root_module,
         \<lparr>name = ''testing'', level = INFO, parent = 0, context = 0, tags = []\<rparr>,
         \<lparr>name = ''testing.withtags'', level = UNSPECIFIED, parent = 1, context = 0,
            tags = [''tag1'', ''tag2'']\<rparr>],
      context_heap =
        [\<lparr>root = 0, modules = [([], 0), (''testing'', 1), (''testing.withtags'', 2)]\<rparr>],
      labels_heap =
        [[(''foo'', ''bar'')], [(''hello'', ''world''), (''logger-tags'', ''mine'')]],
      defaultContext = 0, dispatched = [], sprintf_calls = 0\<rparr>"

text \<open>An environment for the examples: a fixed clock, a stack inspection that reads the
  frame at the given depth, and a formatter over string arguments that appends them in
  brackets.\<close>

definition env0 :: "string environment" where
  "env0 =
     \<lparr>Now = 42,
      Caller = (\<lambda>fs k. if 0 \<le> k \<and> nat k < length fs
                        then (fst (fs ! nat k), snd (fs ! nat k), True) else ([], 0, False)),
      Sprintf = (\<lambda>f as. f @ ''['' @ concat as @ '']'')\<rparr>"

text \<open>A handle on \<^verbatim>\<open>testing\<close> carrying the first label map of \<open>world1\<close>.\<close>

definition labelled_handle :: Logger where
  "labelled_handle = \<lparr>impl = Some 1, labels = Some 0\<rparr>"

text \<open>A handle on \<^verbatim>\<open>testing.withtags\<close> carrying the second label map of \<open>world1\<close>, and
  the zero value of \<^verbatim>\<open>Logger\<close>.\<close>

definition tagged_handle :: Logger where
  "tagged_handle = \<lparr>impl = Some 2, labels = Some 1\<rparr>"

definition zero_Logger :: Logger where
  "zero_Logger = \<lparr>impl = None, labels = None\<rparr>"

section \<open>The name map of a context\<close>

text \<open>Modelled from the spec: the invariant of a context's name map. Every module
  registered in context \<open>c\<close> is live, carries the name it is registered under and points
  back to \<open>c\<close>.\<close>

definition registry_ok :: "world \<Rightarrow> ref \<Rightarrow> bool" where
  "registry_ok w c \<longleftrightarrow>
     c < length (context_heap w) \<and>
     (\<forall>(nm, r) \<in> set (modules (context_heap w ! c)).
        r < length (module_heap w) \<and> name (module_heap w ! r) = nm \<and>
        context (module_heap w ! r) = c)"

text \<open>The handle of the root of \<open>world0\<close>, and \<open>world0\<close> after the module \<^verbatim>\<open>x\<close>,
  respectively \<^verbatim>\<open>.x\<close>, has been created below the root.\<close>

definition root_handle :: Logger where
  "root_handle = \<lparr>impl = Some 0, labels = None\<rparr>"

definition world0_x :: world where
  "world0_x =
     \<lparr>module_heap = [root_module,
        \<lparr>name = ''x'', level = UNSPECIFIED, parent = 0, context = 0, tags = []\<rparr>],
      context_heap = [\<lparr>root = 0, modules = [([], 0), (''x'', 1)]\<rparr>],
      labels_heap = [],
      defaultContext = 0, dispatched = [], sprintf_calls = 0\<rparr>"

definition world0_dot_x :: world where
  "world0_dot_x =
     \<lparr>module_heap = [root_module,
        \<lparr>name = ''.x'', level = UNSPECIFIED, parent = 0, context = 0, tags = []\<rparr>],
      context_heap = [\<lparr>root = 0, modules = [([], 0), (''.x'', 1)]\<rparr>],
      labels_heap = [],
      defaultContext = 0, dispatched = [], sprintf_calls = 0\<rparr>"

section \<open>The specification's reading of the message\<close>

text \<open>After the spec's words, for comparison with \<^verbatim>\<open>LogCallf\<close>: exactly one trailing
  newline is stripped from the message if present.\<close>

definition strip_one_newline :: "string \<Rightarrow> string" where
  "strip_one_newline s = (if s \<noteq> [] \<and> last s = CHR 0x0A then butlast s else s)"

section \<open>The copy loop\<close>

lemma update_fresh_append:
  "k \<notin> fst ` set al \<Longrightarrow> AList.update k v al = al @ [(k, v)]"
  by (induction al) auto

lemma fold_update_append:
  "distinct (map fst kvs) \<Longrightarrow> fst ` set dst \<inter> fst ` set kvs = {} \<Longrightarrow>
   fold (\<lambda>(k, v). AList.update k v) kvs dst = dst @ kvs"
proof (induction kvs arbitrary: dst)
  case Nil
  then show ?case by simp
next
  case (Cons p kvs)
  obtain k v where p: "p = (k, v)" by (cases p)
  from Cons.prems p have fresh: "k \<notin> fst ` set dst" by auto
  from Cons.prems p have d: "distinct (map fst kvs)" and nk: "k \<notin> fst ` set kvs" by auto
  from Cons.prems p nk have "fst ` set (dst @ [(k, v)]) \<inter> fst ` set kvs = {}" by auto
  from Cons.IH [OF d this] show ?case
    by (simp add: p update_fresh_append [OF fresh])
qed


lemma copy_entries_more:
  "a < length (labels_heap w) \<Longrightarrow>
    copy_entries w a kvs =
     w\<lparr>labels_heap := (labels_heap w)[a := fold (\<lambda>(k, v). AList.update k v) kvs (labels_heap w ! a)]\<rparr>"
  by (induction w a kvs rule: copy_entries.induct) (simp_all add: map_assign_def)

section \<open>\<^verbatim>\<open>WithLabels\<close>\<close>

lemma WithLabels_eq:
  assumes "deref_labels w m = Some kvs" and "distinct (map fst kvs)"
  shows "WithLabels w h m =
     (if kvs = [] then Some (w, h)
      else Some (w\<lparr>labels_heap := labels_heap w @ [kvs]\<rparr>,
                 h\<lparr>labels := Some (length (labels_heap w))\<rparr>))"
proof (cases "kvs = []")
  case True
  with assms show ?thesis by (simp add: WithLabels_def)
next
  case False
  let ?w1 = "w\<lparr>labels_heap := labels_heap w @ [[]]\<rparr>"
  let ?a = "length (labels_heap w)"
  have "copy_entries ?w1 ?a kvs =
        ?w1\<lparr>labels_heap := (labels_heap ?w1)[?a := fold (\<lambda>(k, v). AList.update k v) kvs (labels_heap ?w1 ! ?a)]\<rparr>"
    by (rule copy_entries_more) simp
  also have "\<dots> = w\<lparr>labels_heap := labels_heap w @ [kvs]\<rparr>"
    using fold_update_append [OF assms(2), of "[]"] by simp
  finally show ?thesis
    using assms False by (simp add: WithLabels_def make_Labels_def)
qed

text \<open>
  Claim C1, as amended. For every handle \<open>h\<close> and every non-empty label map \<open>m\<close>
  (a well-formed map object: its keys are distinct), \<^verbatim>\<open>WithLabels(m)\<close> returns a handle
  on the same module whose label map holds exactly the entries of \<open>m\<close>: whatever labels
  \<open>h\<close> carried are left out of the result, they are not merged. On an empty map (nil
  included) the handle returned is \<open>h\<close> itself and the world is unchanged.
\<close>

theorem WithLabels_replaces_labels:
  assumes "deref_labels w m = Some kvs" and "distinct (map fst kvs)"
  shows "\<exists>w' h'. WithLabels w h m = Some (w', h') \<and> impl h' = impl h \<and>
           (if kvs = [] then w' = w \<and> h' = h
            else deref_labels w' (labels h') = Some kvs)"
  using assms by (simp add: WithLabels_eq deref_labels_def)

theorem WithLabels_replaces_labels_witness:
  "deref_labels world1 (Some 1) = Some [(''hello'', ''world''), (''logger-tags'', ''mine'')] \<and>
   distinct (map fst [(''hello'', ''world''), (''logger-tags'', ''mine'')]) \<and>
   (\<exists>w' h'. WithLabels world1 labelled_handle (Some 1) = Some (w', h') \<and>
      impl h' = impl labelled_handle \<and>
      deref_labels w' (labels h') = Some [(''hello'', ''world''), (''logger-tags'', ''mine'')])"
proof -
  have d: "deref_labels world1 (Some 1) = Some [(''hello'', ''world''), (''logger-tags'', ''mine'')]"
    by (simp add: deref_labels_def world1_def)
  have e: "distinct (map fst [(''hello'', ''world''), (''logger-tags'', ''mine'')])"
    by simp
  from WithLabels_replaces_labels [OF d e, of labelled_handle] d e show ?thesis by simp
qed

text \<open>
  The claim as first stated asks for the labels of \<open>h\<close> merged with \<open>m\<close>. The handle
  \<open>labelled_handle\<close> carries \<^verbatim>\<open>foo=bar\<close>; after \<^verbatim>\<open>WithLabels\<close> with the second map of
  \<open>world1\<close> the result has no \<^verbatim>\<open>foo\<close>, which the merge would keep.
\<close>

theorem WithLabels_merge_counterexample:
  "WithLabels world1 labelled_handle (Some 1) =
     Some (world1\<lparr>labels_heap := labels_heap world1 @ [[(''hello'', ''world''), (''logger-tags'', ''mine'')]]\<rparr>,
           \<lparr>impl = Some 1, labels = Some 2\<rparr>) \<and>
   deref_labels world1 (labels labelled_handle) = Some [(''foo'', ''bar'')] \<and>
   deref_labels world1 (Some 1) = Some [(''hello'', ''world''), (''logger-tags'', ''mine'')] \<and>
   deref_labels (world1\<lparr>labels_heap := labels_heap world1 @ [[(''hello'', ''world''), (''logger-tags'', ''mine'')]]\<rparr>)
     (Some 2) = Some [(''hello'', ''world''), (''logger-tags'', ''mine'')] \<and>
   map_of [(''hello'', ''world''), (''logger-tags'', ''mine'')] ''foo'' = None \<and>
   (map_of [(''foo'', ''bar'')] ++ map_of [(''hello'', ''world''), (''logger-tags'', ''mine'')]) ''foo''
     = Some ''bar''"
  by (simp add: WithLabels_def deref_labels_def world1_def labelled_handle_def make_Labels_def
      map_assign_def)

text \<open>
  Claim C10, as amended. \<^verbatim>\<open>WithLabels\<close> mutates neither its receiver nor its argument:
  for every handle \<open>h\<close> and map \<open>m\<close> (both referring to live map objects, the keys of \<open>m\<close>
  distinct), every label map that existed before the call has the same contents after
  it, those of \<open>h\<close> and \<open>m\<close> among them. When \<open>m\<close> is non-empty the handle returned holds
  a freshly allocated map, different from \<open>m\<close> and from the map of \<open>h\<close>, with the entries
  of \<open>m\<close>, and a later assignment into \<open>m\<close> leaves it as it is. When \<open>m\<close> is empty the
  receiver itself is returned, with the label map it already had.
\<close>

theorem WithLabels_frame:
  assumes "deref_labels w (labels h) = Some hl" and "deref_labels w m = Some kvs"
    and "distinct (map fst kvs)"
  shows "\<exists>w' h'. WithLabels w h m = Some (w', h') \<and>
           deref_labels w' (labels h) = Some hl \<and> deref_labels w' m = Some kvs \<and>
           (\<forall>a < length (labels_heap w). labels_heap w' ! a = labels_heap w ! a) \<and>
           (if kvs = [] then w' = w \<and> h' = h
            else labels h' = Some (length (labels_heap w)) \<and>
                 labels h' \<noteq> m \<and> labels h' \<noteq> labels h \<and>
                 deref_labels w' (labels h') = Some kvs \<and>
                 (\<forall>b k v. m = Some b \<longrightarrow>
                    deref_labels (map_assign w' b k v) (labels h') = Some kvs))"
proof (cases "kvs = []")
  case True
  with assms show ?thesis by (simp add: WithLabels_eq)
next
  case False
  have "deref_labels (w\<lparr>labels_heap := labels_heap w @ [kvs]\<rparr>) l = deref_labels w l"
    if "deref_labels w l = Some x" for l x
    using that by (auto simp: deref_labels_def nth_append split: option.splits if_splits)
  note keep = this
  have m: "m \<noteq> Some (length (labels_heap w))" and h: "labels h \<noteq> Some (length (labels_heap w))"
    using assms by (auto simp: deref_labels_def split: option.splits if_splits)
  have mut: "deref_labels (map_assign (w\<lparr>labels_heap := labels_heap w @ [kvs]\<rparr>) b k v)
               (Some (length (labels_heap w))) = Some kvs" if "m = Some b" for b k v
    using that m by (simp add: deref_labels_def map_assign_def nth_list_update)
  show ?thesis
    using assms False m h mut keep [OF assms(1)] keep [OF assms(2)]
    by (simp add: WithLabels_eq nth_append) (simp add: deref_labels_def)
qed

theorem WithLabels_frame_witness:
  "deref_labels world1 (labels labelled_handle) = Some [(''foo'', ''bar'')] \<and>
   deref_labels world1 (Some 1) = Some [(''hello'', ''world''), (''logger-tags'', ''mine'')] \<and>
   distinct (map fst [(''hello'', ''world''), (''logger-tags'', ''mine'')]) \<and>
   (\<exists>w' h'. WithLabels world1 labelled_handle (Some 1) = Some (w', h') \<and>
      deref_labels w' (labels labelled_handle) = Some [(''foo'', ''bar'')] \<and>
      labels h' = Some 2 \<and>
      deref_labels (map_assign w' 1 ''hello'' ''there'') (labels h')
        = Some [(''hello'', ''world''), (''logger-tags'', ''mine'')])"
proof -
  have a: "deref_labels world1 (labels labelled_handle) = Some [(''foo'', ''bar'')]"
    by (simp add: deref_labels_def world1_def labelled_handle_def)
  have d: "deref_labels world1 (Some 1) = Some [(''hello'', ''world''), (''logger-tags'', ''mine'')]"
    by (simp add: deref_labels_def world1_def)
  have e: "distinct (map fst [(''hello'', ''world''), (''logger-tags'', ''mine'')])"
    by simp
  have l: "length (labels_heap world1) = 2" by (simp add: world1_def)
  from WithLabels_frame [OF a d e] obtain w' h' where
    "WithLabels world1 labelled_handle (Some 1) = Some (w', h')"
    "deref_labels w' (labels labelled_handle) = Some [(''foo'', ''bar'')]"
    "labels h' = Some 2"
    "deref_labels (map_assign w' 1 ''hello'' ''there'') (labels h')
        = Some [(''hello'', ''world''), (''logger-tags'', ''mine'')]"
    by (auto simp: l)
  with a d e show ?thesis by blast
qed

text \<open>
  The claim as first stated has the returned handle hold a fresh copy of \<open>m\<close> for every
  \<open>m\<close>. With the nil map the handle returned is the receiver: its label map is the
  object at address 0, which existed before the call, and holds \<^verbatim>\<open>foo=bar\<close>, not the
  (empty) contents of \<open>m\<close>.
\<close>

theorem WithLabels_fresh_copy_counterexample:
  "WithLabels world1 labelled_handle None = Some (world1, labelled_handle) \<and>
   labels labelled_handle = Some 0 \<and> 0 < length (labels_heap world1) \<and>
   deref_labels world1 (labels labelled_handle) = Some [(''foo'', ''bar'')] \<and>
   deref_labels world1 None = Some []"
  by (simp add: WithLabels_def deref_labels_def world1_def labelled_handle_def)

section \<open>\<^verbatim>\<open>LogCallf\<close>\<close>

lemma trim_eq: "(if length message > 0 \<and> message ! (length message - 1) = CHR 0x0A
                        then take (length message - 1) message else message) = strip_one_newline message"
  by (cases "message = []") (simp_all add: strip_one_newline_def last_conv_nth butlast_conv_take)

lemma deref_module_frame [simp]:
  "deref_module (w\<lparr>sprintf_calls := n\<rparr>) m = deref_module w m"
  "deref_module (w\<lparr>labels_heap := lh\<rparr>) m = deref_module w m"
  "deref_module (w\<lparr>dispatched := d\<rparr>) m = deref_module w m"
  by (simp_all add: deref_module_def)

lemma list_update_second_appended:
  "(xs @ [a, b])[Suc (length xs) := y] = xs @ [a, y]"
  by (simp add: list_update_append)

lemma LogCallf_accepted:
  assumes gm: "getModule w logger = Some m"
    and ww: "willWrite w m lvl = Some True"
    and md: "deref_module w m = Some md"
    and lb: "deref_labels w (labels logger) = Some lbls"
  shows "LogCallf env stk w logger calldepth lvl message args =
     Some (w\<lparr>sprintf_calls := (if args = [] then sprintf_calls w else sprintf_calls w + 1),
             labels_heap := labels_heap w @
               (if tags md = [] then (if lbls = [] then [] else [fold (\<lambda>(k, v). AList.update k v) lbls []])
                else [[], fold (\<lambda>(k, v). AList.update k v) lbls [(LoggerTags, Join (tags md) '','')]]),
             dispatched := dispatched w @
               [(context md,
                 \<lparr>Level = lvl,
                  Filename = (case Caller env ((logger_go, 147) # stk) (calldepth + 1) of
                                (file, line, ok) \<Rightarrow> if ok then file else ''???''),
                  Line = (case Caller env ((logger_go, 147) # stk) (calldepth + 1) of
                                (file, line, ok) \<Rightarrow> if ok then line else 0),
                  Timestamp = Now env,
                  Message = (if args = [] then strip_one_newline message
                             else Sprintf env (strip_one_newline message) args),
                  Labels = (if tags md = [] then (if lbls = [] then None else Some (length (labels_heap w)))
                            else Some (Suc (length (labels_heap w))))\<rparr>)]\<rparr>)"
proof -
  obtain fl ln ok where c: "Caller env ((logger_go, 147) # stk) (calldepth + 1) = (fl, ln, ok)"
    by (cases "Caller env ((logger_go, 147) # stk) (calldepth + 1)")
  show ?thesis
    unfolding LogCallf_def trim_eq
    using assms
    by (cases "tags md = []"; cases "lbls = []"; cases "args = []")
       (simp_all add: c Let_def make_Labels_def copy_entries_more
          map_assign_def module_write_def nth_append list_update_second_appended)
qed

lemma world1_levels:
  "getEffectiveLogLevel world1 2 = Some INFO"
  "getEffectiveLogLevel world1 1 = Some INFO"
  "getEffectiveLogLevel world1 0 = Some WARNING"
  by (simp_all add: getEffectiveLogLevel.simps deref_module_def world1_def root_module_def)

lemma world1_tagged:
  "getModule world1 tagged_handle = Some 2"
  "willWrite world1 2 INFO = Some True"
  "deref_module world1 2 =
     Some \<lparr>name = ''testing.withtags'', level = UNSPECIFIED, parent = 1, context = 0,
            tags = [''tag1'', ''tag2'']\<rparr>"
  "deref_labels world1 (labels tagged_handle) =
     Some [(''hello'', ''world''), (''logger-tags'', ''mine'')]"
  by (simp_all add: getModule_def tagged_handle_def willWrite_def world1_levels)
     (simp_all add: deref_module_def deref_labels_def world1_def)

text \<open>
  Claim C2. For every logger, level, message and argument list, whatever the formatter
  does: if the level is below the effective level of the logger's module, \<^verbatim>\<open>LogCallf\<close>
  and \<^verbatim>\<open>Logf\<close> return with the world as it was. No entry is dispatched and the count of
  \<^verbatim>\<open>fmt.Sprintf\<close> calls is the same, so a malformed format string is never looked at.
\<close>

theorem disabled_call_returns_unchanged:
  assumes "getModule w logger = Some m" and "getEffectiveLogLevel w m = Some eff"
    and "severity lvl < severity eff"
  shows "LogCallf env stk w logger calldepth lvl message args = Some w \<and>
         Logf env stk w logger lvl message args = Some w"
  using assms by (simp add: Logf_def LogCallf_def willWrite_def)

theorem disabled_call_returns_unchanged_witness:
  "getModule world1 tagged_handle = Some 2 \<and> getEffectiveLogLevel world1 2 = Some INFO \<and>
   severity DEBUG < severity INFO \<and>
   LogCallf env0 [(''main.go'', 10)] world1 tagged_handle 1 DEBUG ''%d'' [''not a number''] = Some world1 \<and>
   Logf env0 [(''main.go'', 10)] world1 tagged_handle DEBUG ''%d'' [''not a number''] = Some world1"
proof -
  have a: "getModule world1 tagged_handle = Some 2" by (simp add: getModule_def tagged_handle_def)
  have b: "getEffectiveLogLevel world1 2 = Some INFO" by (rule world1_levels)
  have c: "severity DEBUG < severity INFO" by simp
  from disabled_call_returns_unchanged [OF a b c] a b c show ?thesis by simp
qed





text \<open>
  Claim C5. For every accepted call, \<^verbatim>\<open>fmt.Sprintf\<close> is applied (once) exactly when at least
  one argument was supplied. With an empty argument list the formatter is not called and
  the message of the entry is the message text itself (less its trailing newline),
  whatever per cent signs it contains.
\<close>

theorem formatting_only_with_arguments:
  assumes "getModule w logger = Some m" and "willWrite w m lvl = Some True"
    and "deref_module w m = Some md" and "deref_labels w (labels logger) = Some lbls"
  shows "\<exists>w' e. LogCallf env stk w logger calldepth lvl message args = Some w' \<and>
           dispatched w' = dispatched w @ [(context md, e)] \<and>
           (if args = []
            then Message e = strip_one_newline message \<and> sprintf_calls w' = sprintf_calls w
            else Message e = Sprintf env (strip_one_newline message) args \<and>
                 sprintf_calls w' = sprintf_calls w + 1)"
  unfolding LogCallf_accepted [OF assms] by simp

theorem formatting_only_with_arguments_witness:
  "getModule world1 tagged_handle = Some 2 \<and> willWrite world1 2 INFO = Some True \<and>
   deref_module world1 2 =
     Some \<lparr>name = ''testing.withtags'', level = UNSPECIFIED, parent = 1, context = 0,
            tags = [''tag1'', ''tag2'']\<rparr> \<and>
   deref_labels world1 (labels tagged_handle) =
     Some [(''hello'', ''world''), (''logger-tags'', ''mine'')] \<and>
   (\<exists>w' e.
      LogCallf env0 [(''main.go'', 10)] world1 tagged_handle 1 INFO ''100%d done'' [] = Some w' \<and>
      dispatched w' = [(0, e)] \<and> Message e = ''100%d done'' \<and> sprintf_calls w' = 0)"
proof -
  from formatting_only_with_arguments [OF world1_tagged, of env0 "[(''main.go'', 10)]" 1
      "''100%d done''" "[]"]
  obtain w' e where
    "LogCallf env0 [(''main.go'', 10)] world1 tagged_handle 1 INFO ''100%d done'' [] = Some w'"
    "dispatched w' = dispatched world1 @ [(0, e)]"
    "Message e = strip_one_newline ''100%d done''" "sprintf_calls w' = sprintf_calls world1"
    by auto
  moreover have "dispatched world1 = []" "sprintf_calls world1 = 0" by (simp_all add: world1_def)
  ultimately show ?thesis
    using world1_tagged by (simp add: strip_one_newline_def)
qed

section \<open>The convenience methods\<close>


section \<open>Navigation\<close>

text \<open>
  Claim C9. For every handle, whatever labels it carries, the handle \<^verbatim>\<open>Parent\<close> returns
  carries none; and \<^verbatim>\<open>Parent\<close> does return, with the parent of the handle's module,
  whenever that module is live.
\<close>

theorem Parent_carries_no_labels:
  "(\<forall>p. Parent w h = Some p \<longrightarrow> labels p = None) \<and>
   (getModule w h = Some m \<longrightarrow> deref_module w m = Some md \<longrightarrow>
      Parent w h = Some \<lparr>impl = Some (parent md), labels = None\<rparr>)"
  by (auto simp: Parent_def bind_eq_Some_conv)

theorem Parent_carries_no_labels_witness:
  "labels labelled_handle = Some 0 \<and>
   getModule world1 labelled_handle = Some 1 \<and>
   deref_module world1 1 = Some \<lparr>name = ''testing'', level = INFO, parent = 0, context = 0, tags = []\<rparr> \<and>
   Parent world1 labelled_handle = Some \<lparr>impl = Some 0, labels = None\<rparr> \<and>
   labels \<lparr>impl = Some 0, labels = None\<rparr> = None"
proof -
  have a: "getModule world1 labelled_handle = Some 1"
    by (simp add: getModule_def labelled_handle_def)
  have b: "deref_module world1 1 =
      Some \<lparr>name = ''testing'', level = INFO, parent = 0, context = 0, tags = []\<rparr>"
    by (simp add: deref_module_def world1_def)
  from Parent_carries_no_labels [of world1 labelled_handle 1
      "\<lparr>name = ''testing'', level = INFO, parent = 0, context = 0, tags = []\<rparr>"] a b
  show ?thesis by (simp add: labelled_handle_def)
qed

section \<open>The zero value\<close>

lemma copy_entries_frame:
  "context_heap (copy_entries w a kvs) = context_heap w"
  "defaultContext (copy_entries w a kvs) = defaultContext w"
  by (induction w a kvs rule: copy_entries.induct) (simp_all add: map_assign_def)

lemma WithLabels_getModule:
  assumes "WithLabels w h m = Some (w', h')"
  shows "getModule w' h' = getModule w h"
  using assms
  by (auto simp: WithLabels_def getModule_def deref_context_def make_Labels_def
      copy_entries_frame split: option.splits if_splits)

text \<open>
  Claim C8. Where the default context exists, \<^verbatim>\<open>getModule\<close> gives for a handle without a
  module the root of the default context, never nil, and every operation of
  \<^verbatim>\<open>logger.go\<close> on such a handle (the zero value is the one without labels) has the result
  of the same operation on the handle of the default context's root with the same
  labels. \<^verbatim>\<open>WithLabels\<close> keeps the module reference as it is, so its two results are
  compared by the module \<^verbatim>\<open>getModule\<close> finds for them.
\<close>

theorem zero_Logger_is_default_root:
  assumes "deref_context w (defaultContext w) = Some ctx"
    and "zero = \<lparr>impl = None, labels = l\<rparr>" and "rooted = \<lparr>impl = Some (root ctx), labels = l\<rparr>"
  shows "getModule w zero = Some (root ctx) \<and> getModule w rooted = Some (root ctx) \<and>
         Root w zero = Root w rooted \<and>
         Parent w zero = Parent w rooted \<and>
         Child w zero nm = Child w rooted nm \<and>
         ChildWithTags w zero nm tgs = ChildWithTags w rooted nm tgs \<and>
         Name w zero = Name w rooted \<and>
         LogLevel w zero = LogLevel w rooted \<and>
         Tags w zero = Tags w rooted \<and>
         EffectiveLogLevel w zero = EffectiveLogLevel w rooted \<and>
         SetLogLevel w zero lvl = SetLogLevel w rooted lvl \<and>
         LogCallf env stk w zero calldepth lvl message args =
           LogCallf env stk w rooted calldepth lvl message args \<and>
         Logf env stk w zero lvl message args = Logf env stk w rooted lvl message args \<and>
         Tracef env stk w zero message args = Tracef env stk w rooted message args \<and>
         Debugf env stk w zero message args = Debugf env stk w rooted message args \<and>
         Infof env stk w zero message args = Infof env stk w rooted message args \<and>
         Warningf env stk w zero message args = Warningf env stk w rooted message args \<and>
         Errorf env stk w zero message args = Errorf env stk w rooted message args \<and>
         Criticalf env stk w zero message args = Criticalf env stk w rooted message args \<and>
         IsLevelEnabled w zero lvl = IsLevelEnabled w rooted lvl \<and>
         IsErrorEnabled w zero = IsErrorEnabled w rooted \<and>
         IsWarningEnabled w zero = IsWarningEnabled w rooted \<and>
         IsInfoEnabled w zero = IsInfoEnabled w rooted \<and>
         IsDebugEnabled w zero = IsDebugEnabled w rooted \<and>
         IsTraceEnabled w zero = IsTraceEnabled w rooted \<and>
         map_option (\<lambda>(w', h'). (w', getModule w' h', labels h')) (WithLabels w zero m) =
           map_option (\<lambda>(w', h'). (w', getModule w' h', labels h')) (WithLabels w rooted m)"
proof -
  have gz: "getModule w zero = Some (root ctx)" and gr: "getModule w rooted = Some (root ctx)"
    using assms by (simp_all add: getModule_def)
  have lz: "labels zero = labels rooted" using assms by simp
  have wl: "map_option (\<lambda>(w', h'). (w', getModule w' h', labels h')) (WithLabels w zero m) =
           map_option (\<lambda>(w', h'). (w', getModule w' h', labels h')) (WithLabels w rooted m)"
  proof (cases "WithLabels w zero m")
    case None
    then have "WithLabels w rooted m = None"
      by (auto simp: WithLabels_def Let_def make_Labels_def split: option.splits if_splits)
    with None show ?thesis by simp
  next
    case (Some r)
    obtain w' h' where r: "r = (w', h')" by (cases r)
    from Some r have z: "WithLabels w zero m = Some (w', h')" by simp
    then have "WithLabels w rooted m = Some (w', h'\<lparr>impl := Some (root ctx)\<rparr>)"
      using assms(2,3)
      by (auto simp: WithLabels_def Let_def make_Labels_def split: option.splits if_splits)
    moreover from this have "getModule w' (h'\<lparr>impl := Some (root ctx)\<rparr>) = Some (root ctx)"
      by (simp add: getModule_def)
    moreover from WithLabels_getModule [OF z] gz have "getModule w' h' = Some (root ctx)" by simp
    ultimately show ?thesis using z by simp
  qed
  have lc: "LogCallf env stk w zero calldepth lvl message args =
            LogCallf env stk w rooted calldepth lvl message args"
    for stk calldepth lvl message args
    unfolding LogCallf_def gz gr lz by (rule refl)
  show ?thesis
    using gz gr wl lc
    by (simp add: Root_def Parent_def Child_def ChildWithTags_def Name_def LogLevel_def Tags_def
        EffectiveLogLevel_def SetLogLevel_def Logf_def Tracef_def Debugf_def
        Infof_def Warningf_def Errorf_def Criticalf_def IsLevelEnabled_def IsErrorEnabled_def
        IsWarningEnabled_def IsInfoEnabled_def IsDebugEnabled_def IsTraceEnabled_def)
qed

theorem zero_Logger_is_default_root_witness:
  "deref_context world1 (defaultContext world1) =
     Some \<lparr>root = 0, modules = [([], 0), (''testing'', 1), (''testing.withtags'', 2)]\<rparr> \<and>
   getModule world1 zero_Logger = Some 0 \<and>
   Name world1 zero_Logger = Name world1 \<lparr>impl = Some 0, labels = None\<rparr> \<and>
   Name world1 zero_Logger = Some ''<root>'' \<and>
   LogLevel world1 zero_Logger = Some WARNING \<and>
   IsInfoEnabled world1 zero_Logger = IsInfoEnabled world1 \<lparr>impl = Some 0, labels = None\<rparr> \<and>
   Child world1 zero_Logger ''testing'' = Child world1 \<lparr>impl = Some 0, labels = None\<rparr> ''testing''"
proof -
  have a: "deref_context world1 (defaultContext world1) =
     Some \<lparr>root = 0, modules = [([], 0), (''testing'', 1), (''testing.withtags'', 2)]\<rparr>"
    by (simp add: deref_context_def world1_def)
  have n: "Name world1 \<lparr>impl = Some 0, labels = None\<rparr> = Some ''<root>''"
    "LogLevel world1 \<lparr>impl = Some 0, labels = None\<rparr> = Some WARNING"
    by (simp_all add: Name_def LogLevel_def getModule_def module_Name_def deref_module_def world1_def
        root_module_def)
  note t = zero_Logger_is_default_root [OF a refl refl, where l = None and nm = "''testing''"
      and tgs = "[]" and lvl = INFO and env = env0 and stk = "[]" and calldepth = 0
      and message = "[]" and args = "[]" and m = None]
  from t have "getModule world1 zero_Logger = Some 0"
    "Name world1 zero_Logger = Name world1 \<lparr>impl = Some 0, labels = None\<rparr>"
    "LogLevel world1 zero_Logger = LogLevel world1 \<lparr>impl = Some 0, labels = None\<rparr>"
    "IsInfoEnabled world1 zero_Logger = IsInfoEnabled world1 \<lparr>impl = Some 0, labels = None\<rparr>"
    "Child world1 zero_Logger ''testing'' = Child world1 \<lparr>impl = Some 0, labels = None\<rparr> ''testing''"
    unfolding zero_Logger_def by simp_all
  with a n show ?thesis by simp
qed

section \<open>Children\<close>

lemma ToLower_char_idem: "ToLower_char (ToLower_char c) = ToLower_char c"
  by (auto simp: ToLower_char_def Let_def)

lemma ToLower_idem: "ToLower (ToLower s) = ToLower s"
  by (simp add: ToLower_def ToLower_char_idem)

lemma ToLower_append: "ToLower (x @ y) = ToLower x @ ToLower y"
  by (simp add: ToLower_def)

lemma ToLower_Nil_iff: "ToLower s = [] \<longleftrightarrow> s = []"
  by (simp add: ToLower_def)

lemma prefixes_at_dots_append:
  "prefixes_at_dots acc (xs @ ys) = prefixes_at_dots acc xs @ prefixes_at_dots (acc @ xs) ys"
  by (induction xs arbitrary: acc) simp_all

lemma ancestor_names_child:
  "ancestor_names (p @ ''.'' @ q) = ancestor_names p @ [p] @ prefixes_at_dots (p @ ''.'') q"
  by (simp add: ancestor_names_def prefixes_at_dots_append)

lemma ensure_found:
  assumes "map_of (modules (context_heap w ! c)) nm = Some r"
  shows "ensure_module c [] (w, par) nm = (w, r)"
  using assms by (simp add: ensure_module_def merge_tags_def)

lemma ensure_step:
  fixes w :: world and c par :: ref and nm :: string
  assumes "c < length (context_heap w)"
  defines "w' \<equiv> fst (ensure_module c [] (w, par) nm)"
    and "r \<equiv> snd (ensure_module c [] (w, par) nm)"
  shows "map_of (modules (context_heap w' ! c)) nm = Some r"
    and "map_of (modules (context_heap w ! c)) n = Some x \<Longrightarrow>
         map_of (modules (context_heap w' ! c)) n = Some x"
    and "length (context_heap w') = length (context_heap w)"
    and "root (context_heap w' ! c) = root (context_heap w ! c)"
    and "registry_ok w c \<Longrightarrow> registry_ok w' c"
proof -
  show "map_of (modules (context_heap w' ! c)) nm = Some r"
    using assms(1) unfolding w'_def r_def
    by (cases "map_of (modules (context_heap w ! c)) nm")
       (simp_all add: ensure_module_def Let_def merge_tags_def map_add_Some_iff)
  show "map_of (modules (context_heap w' ! c)) n = Some x"
    if "map_of (modules (context_heap w ! c)) n = Some x"
    using assms(1) that unfolding w'_def
    by (cases "map_of (modules (context_heap w ! c)) nm")
       (auto simp: ensure_module_def Let_def merge_tags_def map_add_Some_iff)
  show "length (context_heap w') = length (context_heap w)"
    unfolding w'_def
    by (cases "map_of (modules (context_heap w ! c)) nm")
       (simp_all add: ensure_module_def Let_def)
  show "root (context_heap w' ! c) = root (context_heap w ! c)"
    using assms(1) unfolding w'_def
    by (cases "map_of (modules (context_heap w ! c)) nm")
       (simp_all add: ensure_module_def Let_def)
  show "registry_ok w' c" if "registry_ok w c"
  proof (cases "map_of (modules (context_heap w ! c)) nm")
    case None
    with that show ?thesis
      unfolding w'_def
      by (auto simp: registry_ok_def ensure_module_def Let_def nth_append)
  next
    case (Some a)
    with that show ?thesis
      unfolding w'_def by (simp add: ensure_found)
  qed
qed

lemma resolve_keeps:
  assumes "c < length (context_heap w)"
  shows "length (context_heap (fst (foldl (ensure_module c []) (w, par) names))) = length (context_heap w) \<and>
         root (context_heap (fst (foldl (ensure_module c []) (w, par) names)) ! c) = root (context_heap w ! c) \<and>
         (registry_ok w c \<longrightarrow> registry_ok (fst (foldl (ensure_module c []) (w, par) names)) c) \<and>
         (\<forall>n x. map_of (modules (context_heap w ! c)) n = Some x \<longrightarrow>
            map_of (modules (context_heap (fst (foldl (ensure_module c []) (w, par) names)) ! c)) n = Some x) \<and>
         (\<forall>n \<in> set names. \<exists>x.
            map_of (modules (context_heap (fst (foldl (ensure_module c []) (w, par) names)) ! c)) n = Some x)"
  using assms
proof (induction names arbitrary: w par)
  case Nil
  then show ?case by simp
next
  case (Cons n names)
  obtain w1 r1 where e: "ensure_module c [] (w, par) n = (w1, r1)"
    by (cases "ensure_module c [] (w, par) n")
  then have w1: "w1 = fst (ensure_module c [] (w, par) n)"
    and r1: "r1 = snd (ensure_module c [] (w, par) n)" by simp_all
  note st = ensure_step [OF Cons.prems, where par = par and nm = n, folded w1 r1]
  from st(3) Cons.prems have c1: "c < length (context_heap w1)" by simp
  note ih = Cons.IH [OF c1, of r1]
  show ?case
    using ih st by (simp add: e)
qed

lemma resolve_noop:
  assumes "names \<noteq> []"
    and "\<forall>n \<in> set names. \<exists>x. map_of (modules (context_heap w ! c)) n = Some x"
    and "map_of (modules (context_heap w ! c)) (last names) = Some r"
  shows "foldl (ensure_module c []) (w, par) names = (w, r)"
  using assms
proof (induction names arbitrary: par)
  case Nil
  then show ?case by simp
next
  case (Cons n names)
  from Cons.prems(2) obtain x where x: "map_of (modules (context_heap w ! c)) n = Some x"
    by auto
  show ?case
  proof (cases "names = []")
    case True
    with Cons.prems(3) x show ?thesis by (simp add: ensure_found)
  next
    case False
    with Cons.prems have "foldl (ensure_module c []) (w, x) names = (w, r)"
      by (intro Cons.IH) simp_all
    then show ?thesis by (simp add: ensure_found [OF x])
  qed
qed

lemma ToLower_Cons_dot: "ToLower (CHR ''.'' # s) = CHR ''.'' # ToLower s"
  by (simp add: ToLower_def ToLower_char_def)

lemma GetLogger_foldl:
  assumes "c < length (context_heap w)"
  shows "GetLogger w c nm [] =
     Some (fst (foldl (ensure_module c []) (w, root (context_heap w ! c))
                  (ancestor_names (ToLower nm) @ [ToLower nm])),
           \<lparr>impl = Some (snd (foldl (ensure_module c []) (w, root (context_heap w ! c))
                  (ancestor_names (ToLower nm) @ [ToLower nm]))), labels = None\<rparr>)"
  using assms by (simp add: GetLogger_def deref_context_def Let_def)

lemma resolve_registers_last:
  assumes "c < length (context_heap w)"
    and "foldl (ensure_module c []) (w, par) (names @ [nm]) = (w1, r1)"
  shows "map_of (modules (context_heap w1 ! c)) nm = Some r1"
proof -
  let ?wa = "fst (foldl (ensure_module c []) (w, par) names)"
  let ?pa = "snd (foldl (ensure_module c []) (w, par) names)"
  from resolve_keeps [OF assms(1), of par names]
  have "c < length (context_heap ?wa)" using assms(1) by simp
  from ensure_step(1) [OF this, where par = ?pa and nm = nm] assms(2)
  show ?thesis by simp
qed

lemma world1_registry: "registry_ok world1 0"
  by (simp add: registry_ok_def world1_def root_module_def)

text \<open>
  Claim C6, as amended. For every handle \<open>h\<close> on a live module of a context whose name
  map is in order, and every name \<open>a\<close>: \<^verbatim>\<open>Child(a)\<close> returns a handle without labels on the
  module named by the lower-cased \<^verbatim>\<open>name + "." + a\<close> (just \<open>a\<close> at the root), and that
  module belongs to the context of the module of \<open>h\<close>, whichever context is the default.
  For every name \<open>b\<close>, unless \<open>h\<close> is on the root and \<open>a\<close> is empty,
  \<^verbatim>\<open>h.Child(a).Child(b)\<close> returns, with the same logger and the same world as
  \<^verbatim>\<open>h.Child(a + "." + b)\<close>.
\<close>

theorem Child_composition:
  assumes "getModule w h = Some m" and "deref_module w m = Some md"
    and "registry_ok w (context md)"
  shows "\<exists>w1 h1 r1 md1. Child w h a = Some (w1, h1) \<and> h1 = \<lparr>impl = Some r1, labels = None\<rparr> \<and>
           deref_module w1 r1 = Some md1 \<and> context md1 = context md \<and>
           name md1 = ToLower (if name md = [] then a else name md @ ''.'' @ a) \<and>
           (name md \<noteq> [] \<or> a \<noteq> [] \<longrightarrow>
              Child w1 h1 b = Child w h (a @ ''.'' @ b) \<and> Child w1 h1 b \<noteq> None)"
proof -
  define c where "c = context md"
  define path1 where "path1 = (if name md = [] then a else name md @ ''.'' @ a)"
  define P1 where "P1 = ToLower path1"
  define N1 where "N1 = ancestor_names P1 @ [P1]"
  define root0 where "root0 = root (context_heap w ! c)"
  define rest where "rest = prefixes_at_dots (P1 @ ''.'') (ToLower b) @ [P1 @ ''.'' @ ToLower b]"
  obtain w1 r1 where R1: "foldl (ensure_module c []) (w, root0) N1 = (w1, r1)"
    by (cases "foldl (ensure_module c []) (w, root0) N1")
  from assms(3) have cw: "c < length (context_heap w)" and ok: "registry_ok w c"
    by (simp_all add: registry_ok_def c_def)
  have ch: "Child w h x = GetLogger w c (if name md = [] then x else name md @ ''.'' @ x) []" for x
    using assms(1,2) by (simp add: Child_def c_def)
  have g1: "GetLogger w c path1 [] =
      Some (fst (foldl (ensure_module c []) (w, root0) N1),
            \<lparr>impl = Some (snd (foldl (ensure_module c []) (w, root0) N1)), labels = None\<rparr>)"
    unfolding N1_def P1_def root0_def by (rule GetLogger_foldl [OF cw])
  have child1: "Child w h a = Some (w1, \<lparr>impl = Some r1, labels = None\<rparr>)"
    unfolding ch path1_def [symmetric] g1 R1 by simp
  from resolve_keeps [OF cw, of root0 N1] R1 ok
  have cw1: "c < length (context_heap w1)" and root1: "root (context_heap w1 ! c) = root0"
    and ok1: "registry_ok w1 c"
    and all1: "\<forall>n \<in> set N1. \<exists>x. map_of (modules (context_heap w1 ! c)) n = Some x"
    using cw by (simp_all add: root0_def)
  have reg1: "map_of (modules (context_heap w1 ! c)) P1 = Some r1"
    using resolve_registers_last [OF cw] R1 by (simp add: N1_def)
  then have "(P1, r1) \<in> set (modules (context_heap w1 ! c))" by (rule map_of_SomeD)
  with ok1 have r1: "r1 < length (module_heap w1)" "name (module_heap w1 ! r1) = P1"
    "context (module_heap w1 ! r1) = c"
    by (auto simp: registry_ok_def)
  then have md1: "deref_module w1 r1 = Some (module_heap w1 ! r1)"
    by (simp add: deref_module_def)
  have comp: "Child w1 \<lparr>impl = Some r1, labels = None\<rparr> b = Child w h (a @ ''.'' @ b) \<and>
              Child w1 \<lparr>impl = Some r1, labels = None\<rparr> b \<noteq> None"
    if ne: "name md \<noteq> [] \<or> a \<noteq> []"
  proof -
    from ne have P1ne: "P1 \<noteq> []" by (auto simp: P1_def path1_def ToLower_Nil_iff)
    have low2: "ToLower (P1 @ ''.'' @ b) = P1 @ ''.'' @ ToLower b"
      by (simp add: ToLower_append ToLower_Cons_dot P1_def ToLower_idem)
    have lowd: "ToLower (path1 @ ''.'' @ b) = P1 @ ''.'' @ ToLower b"
      by (simp add: ToLower_append ToLower_Cons_dot P1_def)
    have names: "ancestor_names (P1 @ ''.'' @ ToLower b) @ [P1 @ ''.'' @ ToLower b] = N1 @ rest"
      unfolding N1_def rest_def ancestor_names_child by simp
    have noop: "foldl (ensure_module c []) (w1, root0) N1 = (w1, r1)"
      by (rule resolve_noop) (use all1 reg1 in \<open>simp_all add: N1_def\<close>)
    have "Child w1 \<lparr>impl = Some r1, labels = None\<rparr> b = GetLogger w1 c (P1 @ ''.'' @ b) []"
      using md1 r1 P1ne by (simp add: Child_def getModule_def)
    also have "\<dots> =
        Some (fst (foldl (ensure_module c []) (w1, root0) (N1 @ rest)),
              \<lparr>impl = Some (snd (foldl (ensure_module c []) (w1, root0) (N1 @ rest))), labels = None\<rparr>)"
      unfolding names [symmetric] low2 [symmetric] root1 [symmetric]
      by (rule GetLogger_foldl [OF cw1])
    finally have two: "Child w1 \<lparr>impl = Some r1, labels = None\<rparr> b =
        Some (fst (foldl (ensure_module c []) (w1, r1) rest),
              \<lparr>impl = Some (snd (foldl (ensure_module c []) (w1, r1) rest)), labels = None\<rparr>)"
      by (simp only: foldl_append noop)
    have path: "(if name md = [] then a @ ''.'' @ b else name md @ ''.'' @ a @ ''.'' @ b)
                 = path1 @ ''.'' @ b"
      by (simp add: path1_def)
    have "Child w h (a @ ''.'' @ b) = GetLogger w c (path1 @ ''.'' @ b) []"
      unfolding ch path [symmetric] by simp
    also have "\<dots> =
        Some (fst (foldl (ensure_module c []) (w, root0) (N1 @ rest)),
              \<lparr>impl = Some (snd (foldl (ensure_module c []) (w, root0) (N1 @ rest))), labels = None\<rparr>)"
      unfolding names [symmetric] lowd [symmetric] root0_def
      by (rule GetLogger_foldl [OF cw])
    finally have one: "Child w h (a @ ''.'' @ b) =
        Some (fst (foldl (ensure_module c []) (w1, r1) rest),
              \<lparr>impl = Some (snd (foldl (ensure_module c []) (w1, r1) rest)), labels = None\<rparr>)"
      by (simp only: foldl_append R1)
    from one two show ?thesis by simp
  qed
  show ?thesis
  proof (intro exI conjI)
    show "Child w h a = Some (w1, \<lparr>impl = Some r1, labels = None\<rparr>)" by (rule child1)
    show "\<lparr>impl = Some r1, labels = None\<rparr> = \<lparr>impl = Some r1, labels = None\<rparr>" by (rule refl)
    show "deref_module w1 r1 = Some (module_heap w1 ! r1)" by (rule md1)
    show "context (module_heap w1 ! r1) = context md" using r1(3) by (simp add: c_def)
    show "name (module_heap w1 ! r1) = ToLower (if name md = [] then a else name md @ ''.'' @ a)"
      using r1(2) by (simp add: P1_def path1_def)
    show "name md \<noteq> [] \<or> a \<noteq> [] \<longrightarrow>
          Child w1 \<lparr>impl = Some r1, labels = None\<rparr> b = Child w h (a @ ''.'' @ b) \<and>
          Child w1 \<lparr>impl = Some r1, labels = None\<rparr> b \<noteq> None"
      using comp by blast
  qed
qed

theorem Child_composition_witness:
  "getModule world1 labelled_handle = Some 1 \<and>
   deref_module world1 1 = Some \<lparr>name = ''testing'', level = INFO, parent = 0, context = 0, tags = []\<rparr> \<and>
   registry_ok world1 0 \<and>
   (\<exists>w1 h1 r1 md1. Child world1 labelled_handle ''Sub'' = Some (w1, h1) \<and>
      h1 = \<lparr>impl = Some r1, labels = None\<rparr> \<and> deref_module w1 r1 = Some md1 \<and>
      context md1 = 0 \<and> name md1 = ''testing.sub'' \<and>
      Child w1 h1 ''leaf'' = Child world1 labelled_handle ''Sub.leaf'' \<and>
      Child w1 h1 ''leaf'' \<noteq> None)"
proof -
  have a: "getModule world1 labelled_handle = Some 1"
    by (simp add: getModule_def labelled_handle_def)
  have b: "deref_module world1 1 =
      Some \<lparr>name = ''testing'', level = INFO, parent = 0, context = 0, tags = []\<rparr>"
    by (simp add: deref_module_def world1_def)
  have c: "registry_ok world1
      (context \<lparr>name = ''testing'', level = INFO, parent = 0, context = 0, tags = []\<rparr>)"
    using world1_registry by simp
  have l: "ToLower (''testing'' @ ''.'' @ ''Sub'') = ''testing.sub''"
    by code_simp
  have "\<exists>w1 h1 r1 md1. Child world1 labelled_handle ''Sub'' = Some (w1, h1) \<and>
      h1 = \<lparr>impl = Some r1, labels = None\<rparr> \<and> deref_module w1 r1 = Some md1 \<and>
      context md1 = 0 \<and> name md1 = ''testing.sub'' \<and>
      Child w1 h1 ''leaf'' = Child world1 labelled_handle ''Sub.leaf'' \<and>
      Child w1 h1 ''leaf'' \<noteq> None"
    using Child_composition [OF a b c, of "''Sub''" "''leaf''"] l by simp
  with a b world1_registry show ?thesis by simp
qed

text \<open>
  The claim as first stated covers every \<open>h\<close> and \<open>a\<close>. On the root with \<open>a\<close> empty,
  \<^verbatim>\<open>Child("")\<close> is the root again, so \<^verbatim>\<open>Child("").Child("x")\<close> is the module \<^verbatim>\<open>x\<close>, while
  \<^verbatim>\<open>Child("" + "." + "x")\<close> is the module \<^verbatim>\<open>.x\<close>.
\<close>

theorem Child_composition_counterexample:
  "Child world0 root_handle [] = Some (world0, root_handle) \<and>
   Child world0 root_handle ''x'' = Some (world0_x, \<lparr>impl = Some 1, labels = None\<rparr>) \<and>
   Child world0 root_handle ([] @ ''.'' @ ''x'') = Some (world0_dot_x, \<lparr>impl = Some 1, labels = None\<rparr>) \<and>
   Name world0_x \<lparr>impl = Some 1, labels = None\<rparr> = Some ''x'' \<and>
   Name world0_dot_x \<lparr>impl = Some 1, labels = None\<rparr> = Some ''.x'' \<and>
   world0_x \<noteq> world0_dot_x"
  by (simp add: Child_def GetLogger_def getModule_def deref_module_def deref_context_def
      ToLower_def ToLower_char_def ancestor_names_def ensure_module_def merge_tags_def Let_def
      world0_def world0_x_def world0_dot_x_def root_handle_def root_module_def
      Name_def module_Name_def)

end
